theory Spec2Isabelle
  imports Complex_Main "HOL-Library.Multiset"
begin

section \<open>Errors\<close>

text \<open>
  The exceptions the modelled code can raise. \<open>ValueError\<close> is raised by numpy reductions
  over an empty axis and by the input validation of the pairwise similarity routine,
  \<open>IndexError\<close> by positional row access out of range, \<open>AttributeError\<close> by a
  method called on an object whose attributes are not set, \<open>ReError\<close> by the compilation
  of an invalid regular expression. \<open>RegexNotModelled\<close> is not a Python exception: it
  marks a pattern that uses regular-expression syntax outside the fragment embedded below,
  about which this development says nothing.
\<close>

datatype error = ValueError | IndexError | AttributeError | ReError | RegexNotModelled

definition bind_res :: "error + 'a \<Rightarrow> ('a \<Rightarrow> error + 'b) \<Rightarrow> error + 'b" where
  "bind_res m f = (case m of Inl e \<Rightarrow> Inl e | Inr x \<Rightarrow> f x)"

section \<open>Strings\<close>

text \<open>
  Strings are lists of 8-bit characters and stand for ASCII text. \<open>str.lower\<close>,
  \<open>str.upper\<close> and the case folding of \<open>re.IGNORECASE\<close> are modelled on the ASCII
  letters and leave every other character unchanged; the case folding of text outside
  ASCII, which Python does by the Unicode tables, is not modelled.
\<close>

definition lower_char :: "char \<Rightarrow> char" where
  "lower_char c =
     (case map_of (zip ''ABCDEFGHIJKLMNOPQRSTUVWXYZ'' ''abcdefghijklmnopqrstuvwxyz'') c of
        Some d \<Rightarrow> d | None \<Rightarrow> c)"

definition upper_char :: "char \<Rightarrow> char" where
  "upper_char c =
     (case map_of (zip ''abcdefghijklmnopqrstuvwxyz'' ''ABCDEFGHIJKLMNOPQRSTUVWXYZ'') c of
        Some d \<Rightarrow> d | None \<Rightarrow> c)"

definition py_lower :: "string \<Rightarrow> string" where
  "py_lower s = map lower_char s"

definition py_upper :: "string \<Rightarrow> string" where
  "py_upper s = map upper_char s"

text \<open>\<open>starts_with p s\<close>: \<open>s.startswith(p)\<close>.\<close>

fun starts_with :: "string \<Rightarrow> string \<Rightarrow> bool" where
  "starts_with [] s = True"
| "starts_with (p # ps) [] = False"
| "starts_with (p # ps) (c # cs) = (p = c \<and> starts_with ps cs)"

text \<open>\<open>py_in p s\<close>: Python's substring test \<open>p in s\<close>.\<close>

fun py_in :: "string \<Rightarrow> string \<Rightarrow> bool" where
  "py_in p [] = (p = [])"
| "py_in p (c # cs) = (starts_with p (c # cs) \<or> py_in p cs)"

text \<open>Python's truthiness of an optional string: \<open>None\<close> and \<open>''\<close> are falsy.\<close>

fun truthy :: "string option \<Rightarrow> bool" where
  "truthy None = False"
| "truthy (Some s) = (s \<noteq> [])"

text \<open>
  Python's slice \<open>xs[:n]\<close>, which is also what \<open>DataFrame.head(n)\<close> returns: the first
  \<open>n\<close> elements for \<open>n \<ge> 0\<close>, all but the last \<open>-n\<close> elements for \<open>n < 0\<close>.
\<close>

definition py_head :: "int \<Rightarrow> 'a list \<Rightarrow> 'a list" where
  "py_head n xs = (if 0 \<le> n then take (nat n) xs else take (length xs - nat (- n)) xs)"

section \<open>Regular expressions: the fragment used by \<open>Series.str.contains\<close>\<close>

text \<open>
  \<open>Series.str.contains(pat, case=..., na=False)\<close> is called with its default
  \<open>regex=True\<close>: the pattern is compiled by \<open>re.compile\<close> (with \<open>re.IGNORECASE\<close> when
  \<open>case=False\<close>) and each entry is tested with \<open>search\<close>. The fragment embedded here:
  a character outside the special characters of \<open>re\<close> matches itself, \<open>.\<close> matches any
  character except a newline, and a pattern that begins with one of the repetition
  operators \<open>*\<close>, \<open>+\<close>, \<open>?\<close> is rejected by \<open>re.compile\<close> ("nothing to repeat"). Every
  other use of a special character is outside the fragment.
\<close>

datatype re_item = Lit char | AnyChar

definition re_special :: "char \<Rightarrow> bool" where
  "re_special c = (c \<in> set ''.^$*+?{}[]|()'' \<or> c = CHR 0x5C)"

fun re_items :: "string \<Rightarrow> error + re_item list" where
  "re_items [] = Inr []"
| "re_items (c # cs) =
     (if c = CHR ''.'' then bind_res (re_items cs) (\<lambda>r. Inr (AnyChar # r))
      else if re_special c then Inl RegexNotModelled
      else bind_res (re_items cs) (\<lambda>r. Inr (Lit c # r)))"

definition re_compile :: "string \<Rightarrow> error + re_item list" where
  "re_compile pat =
     (case pat of
        [] \<Rightarrow> Inr []
      | c # cs \<Rightarrow> if c \<in> set ''*+?'' then Inl ReError else re_items pat)"

fun item_matches :: "bool \<Rightarrow> re_item \<Rightarrow> char \<Rightarrow> bool" where
  "item_matches ignorecase (Lit p) c = (if ignorecase then lower_char p = lower_char c else p = c)"
| "item_matches ignorecase AnyChar c = (c \<noteq> CHR 0x0A)"

fun re_match_here :: "bool \<Rightarrow> re_item list \<Rightarrow> string \<Rightarrow> bool" where
  "re_match_here ic [] s = True"
| "re_match_here ic (i # is) [] = False"
| "re_match_here ic (i # is) (c # cs) = (item_matches ic i c \<and> re_match_here ic is cs)"

fun re_search :: "bool \<Rightarrow> re_item list \<Rightarrow> string \<Rightarrow> bool" where
  "re_search ic is [] = (is = [])"
| "re_search ic is (c # cs) = (re_match_here ic is (c # cs) \<or> re_search ic is cs)"

text \<open>
  \<open>str_contains pat case col\<close>: the boolean mask \<open>col.str.contains(pat, case=case, na=False)\<close>
  over a column of strings. The pattern is compiled once, before any entry is looked at, so
  an invalid pattern raises even on an empty column.
\<close>

definition str_contains :: "string \<Rightarrow> bool \<Rightarrow> string list \<Rightarrow> error + bool list" where
  "str_contains pat cs col =
     bind_res (re_compile pat) (\<lambda>is. Inr (map (re_search (\<not> cs) is) col))"

section \<open>Data processing\<close>

subsection \<open>Min-max normalisation of the feature matrix\<close>

text \<open>
  A feature matrix is a list of rows. Numbers are exact reals: rounding, overflow and the
  special values of floating-point arithmetic are not modelled.
\<close>

type_synonym matrix = "real list list"

definition ncols :: "matrix \<Rightarrow> nat" where
  "ncols m = (case m of [] \<Rightarrow> 0 | r # _ \<Rightarrow> length r)"

definition column :: "matrix \<Rightarrow> nat \<Rightarrow> real list" where
  "column m j = map (\<lambda>row. row ! j) m"

definition rectangular :: "matrix \<Rightarrow> bool" where
  "rectangular m = (\<forall>row \<in> set m. length row = ncols m)"

text \<open>
  \<open>normalize_features\<close>: \<open>features.min(axis=0)\<close> raises on a matrix without rows; the
  zero entries of the range vector are overwritten with 1 before the division.
\<close>

definition normalize_features :: "matrix \<Rightarrow> error + matrix" where
  "normalize_features features =
     (if features = [] then Inl ValueError
      else
        let min_vals = map (\<lambda>j. Min (set (column features j))) [0..<ncols features];
            max_vals = map (\<lambda>j. Max (set (column features j))) [0..<ncols features];
            range_vals = map (\<lambda>(mx, mn). mx - mn) (zip max_vals min_vals);
            range_vals = map (\<lambda>r. if r = 0 then 1 else r) range_vals
        in Inr (map (\<lambda>row. map (\<lambda>j. (row ! j - min_vals ! j) / range_vals ! j)
                              [0..<ncols features]) features))"

subsection \<open>Position categories\<close>

definition get_position_category :: "string \<Rightarrow> string" where
  "get_position_category position =
     (let position = py_upper position in
      if position \<in> set [''GK''] then ''Goalkeeper''
      else if list_ex (\<lambda>pos. py_in pos position) [''CB'', ''LB'', ''RB'', ''LWB'', ''RWB'']
        then ''Defender''
      else if list_ex (\<lambda>pos. py_in pos position) [''CDM'', ''CM'', ''CAM'', ''LM'', ''RM'']
        then ''Midfielder''
      else if list_ex (\<lambda>pos. py_in pos position) [''ST'', ''CF'', ''LW'', ''RW'', ''LF'', ''RF'']
        then ''Forward''
      else ''Unknown'')"

section \<open>The recommender\<close>

subsection \<open>Player records and the dataset\<close>

text \<open>
  A row of the cleaned dataset, with the columns the recommender reads. \<open>Age\<close> and
  \<open>Position_Category\<close> are read with \<open>.get(..., None)\<close>, so their value may be missing
  (\<open>None\<close>). The dataset is a list of rows: \<open>clean_data\<close> resets the index, so the label
  of a row is its position.
\<close>

record player =
  Name :: string
  OVR :: int
  Position :: string
  Age :: "int option"
  Nation :: string
  League :: string
  Team :: string
  Position_Category :: "string option"

text \<open>
  \<open>process_for_training\<close> fills the category column by applying \<open>get_position_category\<close>
  to the position of every row.
\<close>

definition add_position_category :: "player list \<Rightarrow> player list" where
  "add_position_category df =
     map (\<lambda>p. p\<lparr>Position_Category := Some (get_position_category (Position p))\<rparr>) df"

definition derived_categories :: "player list \<Rightarrow> bool" where
  "derived_categories df =
     (\<forall>p \<in> set df. Position_Category p = Some (get_position_category (Position p)))"

subsection \<open>Cosine similarity\<close>

text \<open>
  \<open>sklearn.metrics.pairwise.cosine_similarity(X, Y)\<close>: both arguments are validated (at
  least one row, at least one column, the same number of columns; \<open>ValueError\<close>
  otherwise), every row is divided by its Euclidean norm (a zero norm is replaced by 1) and
  the result holds the dot products of the scaled rows.
\<close>

definition dot :: "real list \<Rightarrow> real list \<Rightarrow> real" where
  "dot xs ys = sum_list (map (\<lambda>(x, y). x * y) (zip xs ys))"

definition l2_normalize :: "real list \<Rightarrow> real list" where
  "l2_normalize xs =
     (let n = sqrt (dot xs xs); n = (if n = 0 then 1 else n) in map (\<lambda>x. x / n) xs)"

definition check_array :: "matrix \<Rightarrow> bool" where
  "check_array X = (X \<noteq> [] \<and> rectangular X \<and> 0 < ncols X)"

definition cosine_similarity :: "matrix \<Rightarrow> matrix \<Rightarrow> error + matrix" where
  "cosine_similarity X Y =
     (if check_array X \<and> check_array Y \<and> ncols X = ncols Y
      then Inr (map (\<lambda>x. map (\<lambda>y. dot (l2_normalize x) (l2_normalize y)) Y) X)
      else Inl ValueError)"

subsection \<open>State and \<open>fit\<close>\<close>

record recommender =
  data :: "player list"
  normalized_features :: matrix
  feature_names :: "string list"
  similarity_matrix :: matrix

definition fit :: "player list \<Rightarrow> matrix \<Rightarrow> string list \<Rightarrow> error + recommender" where
  "fit d nf fn =
     bind_res (cosine_similarity nf nf) (\<lambda>S.
       Inr \<lparr>data = d, normalized_features = nf, feature_names = fn, similarity_matrix = S\<rparr>)"

text \<open>
  The dimensions of a trained bundle: one feature vector and one similarity row per
  player, one column per feature name.
\<close>

definition consistent :: "recommender \<Rightarrow> bool" where
  "consistent r =
     (check_array (normalized_features r) \<and>
      length (normalized_features r) = length (data r) \<and>
      ncols (normalized_features r) = length (feature_names r) \<and>
      length (similarity_matrix r) = length (data r) \<and>
      (\<forall>row \<in> set (similarity_matrix r). length row = length (data r)))"

subsection \<open>Player lookup\<close>

text \<open>The positions at which a boolean mask is true: the index of \<open>df[mask]\<close>.\<close>

definition mask_index :: "bool list \<Rightarrow> nat list" where
  "mask_index hits = filter (\<lambda>i. hits ! i) [0..<length hits]"

definition find_player_index :: "player list \<Rightarrow> string \<Rightarrow> error + nat option" where
  "find_player_index df player_name =
     (let player_name_lower = py_lower player_name;
          names = map (\<lambda>p. py_lower (Name p)) df;
          matches = mask_index (map (\<lambda>n. n = player_name_lower) names)
      in bind_res
           (if length matches = 0
            then bind_res (str_contains player_name_lower True names) (\<lambda>hits. Inr (mask_index hits))
            else Inr matches)
           (\<lambda>matches. if length matches = 0 then Inr None else Inr (Some (hd matches))))"

definition get_player_details :: "recommender \<Rightarrow> string \<Rightarrow> error + player option" where
  "get_player_details r player_name =
     bind_res (find_player_index (data r) player_name) (\<lambda>player_idx.
       case player_idx of None \<Rightarrow> Inr None | Some i \<Rightarrow> Inr (Some (data r ! i)))"

subsection \<open>Recommendations\<close>

text \<open>
  The candidate loop shared by both recommendation methods: \<open>keep idx\<close> is the body of
  the loop for one index, raising or deciding whether \<open>(idx, score)\<close> is appended.
\<close>

fun collect :: "(nat \<Rightarrow> error + bool) \<Rightarrow> (nat \<times> real) list \<Rightarrow> error + (nat \<times> real) list" where
  "collect keep [] = Inr []"
| "collect keep ((idx, score) # rest) =
     bind_res (keep idx) (\<lambda>k.
     bind_res (collect keep rest) (\<lambda>cs. Inr (if k then (idx, score) # cs else cs)))"

text \<open>\<open>candidates.sort(key=lambda x: x[1], reverse=True)\<close>: stable, descending by score.\<close>

definition sort_by_score :: "(nat \<times> real) list \<Rightarrow> (nat \<times> real) list" where
  "sort_by_score cands = sort_key (\<lambda>c. - snd c) cands"

definition similar_keep ::
  "player list \<Rightarrow> nat \<Rightarrow> string option \<Rightarrow> int option \<Rightarrow> bool \<Rightarrow> int option \<Rightarrow> nat \<Rightarrow> error + bool" where
  "similar_keep df player_idx player_position player_age same_position max_age_diff idx =
     (if idx = player_idx then Inr False
      else if length df \<le> idx then Inl IndexError
      else
        let candidate = df ! idx in
        if same_position \<and> truthy player_position
           \<and> Position_Category candidate \<noteq> player_position then Inr False
        else if (case (max_age_diff, player_age, Age candidate) of
                   (Some m, Some pa, Some ca) \<Rightarrow> m < \<bar>ca - pa\<bar>
                 | _ \<Rightarrow> False) then Inr False
        else Inr True)"

text \<open>
  \<open>similar_ranked\<close>: the slice \<open>candidates[:n_recommendations]\<close> of index-score pairs from
  which \<open>recommend_similar\<close> builds its result (empty when the player is not found).
\<close>

definition similar_ranked ::
  "recommender \<Rightarrow> string \<Rightarrow> int \<Rightarrow> bool \<Rightarrow> int option \<Rightarrow> error + (nat \<times> real) list" where
  "similar_ranked r player_name n_recommendations same_position max_age_diff =
     bind_res (find_player_index (data r) player_name) (\<lambda>found.
       case found of
         None \<Rightarrow> Inr []
       | Some player_idx \<Rightarrow>
           if length (similarity_matrix r) \<le> player_idx then Inl IndexError
           else
             let similarity_scores = similarity_matrix r ! player_idx;
                 player_info = data r ! player_idx;
                 player_position = Position_Category player_info;
                 player_age = Age player_info
             in bind_res
                  (collect (similar_keep (data r) player_idx player_position player_age
                              same_position max_age_diff)
                     (enumerate 0 similarity_scores))
                  (\<lambda>candidates. Inr (py_head n_recommendations (sort_by_score candidates))))"

text \<open>
  A returned dictionary is the row with one more key (\<open>similarity_score\<close> or
  \<open>match_score\<close>): a pair of the row and the score.
\<close>

definition recommend_similar ::
  "recommender \<Rightarrow> string \<Rightarrow> int \<Rightarrow> bool \<Rightarrow> int option \<Rightarrow> error + (player \<times> real) list" where
  "recommend_similar r player_name n_recommendations same_position max_age_diff =
     bind_res (similar_ranked r player_name n_recommendations same_position max_age_diff)
       (\<lambda>ranked. Inr (map (\<lambda>(idx, score). (data r ! idx, score)) ranked))"

text \<open>
  The target vector starts as zeros and is filled index by index from the mapping, 50
  standing in for a missing key.
\<close>

definition target_vector :: "string list \<Rightarrow> (string \<rightharpoonup> real) \<Rightarrow> real list" where
  "target_vector names target_attributes =
     fold (\<lambda>(i, feature) tv. tv[i := (case target_attributes feature of None \<Rightarrow> 50 | Some v \<Rightarrow> v)])
       (enumerate 0 names) (replicate (length names) 0)"

text \<open>
  \<open>(t - t.min()) / (t.max() - t.min() + 1e-8)\<close>; the reductions raise on an empty vector.
\<close>

definition normalize_target :: "real list \<Rightarrow> error + real list" where
  "normalize_target tv =
     (if tv = [] then Inl ValueError
      else let mn = Min (set tv); mx = Max (set tv)
           in Inr (map (\<lambda>x. (x - mn) / (mx - mn + 1 / 10 ^ 8)) tv))"

definition match_scores :: "recommender \<Rightarrow> (string \<rightharpoonup> real) \<Rightarrow> error + real list" where
  "match_scores r target_attributes =
     bind_res (normalize_target (target_vector (feature_names r) target_attributes)) (\<lambda>tv.
     bind_res (cosine_similarity [tv] (normalized_features r)) (\<lambda>sims. Inr (sims ! 0)))"

definition attribute_keep :: "player list \<Rightarrow> string option \<Rightarrow> nat \<Rightarrow> error + bool" where
  "attribute_keep df position idx =
     (if length df \<le> idx then Inl IndexError
      else
        let candidate = df ! idx in
        if truthy position \<and> Position_Category candidate \<noteq> position then Inr False
        else Inr True)"

text \<open>
  The ranked index-score pairs of \<open>recommend_by_attributes\<close>, before the result
  dictionaries are built.
\<close>

definition attribute_ranked ::
  "recommender \<Rightarrow> (string \<rightharpoonup> real) \<Rightarrow> int \<Rightarrow> string option \<Rightarrow> error + (nat \<times> real) list" where
  "attribute_ranked r target_attributes n_recommendations position =
     bind_res (match_scores r target_attributes) (\<lambda>similarities.
     bind_res (collect (attribute_keep (data r) position) (enumerate 0 similarities)) (\<lambda>candidates.
       Inr (py_head n_recommendations (sort_by_score candidates))))"

definition recommend_by_attributes ::
  "recommender \<Rightarrow> (string \<rightharpoonup> real) \<Rightarrow> int \<Rightarrow> string option \<Rightarrow> error + (player \<times> real) list" where
  "recommend_by_attributes r target_attributes n_recommendations position =
     bind_res (attribute_ranked r target_attributes n_recommendations position)
       (\<lambda>ranked. Inr (map (\<lambda>(idx, score). (data r ! idx, score)) ranked))"

subsection \<open>Search and top lists\<close>

text \<open>\<open>df[mask]\<close>: the rows at which the mask is true, in order.\<close>

definition select_rows :: "bool list \<Rightarrow> player list \<Rightarrow> player list" where
  "select_rows hits df = map snd (filter fst (zip hits df))"

definition where_contains ::
  "string \<Rightarrow> bool \<Rightarrow> (player \<Rightarrow> string) \<Rightarrow> player list \<Rightarrow> error + player list" where
  "where_contains pat cs col df =
     bind_res (str_contains pat cs (map col df)) (\<lambda>hits. Inr (select_rows hits df))"

text \<open>A filter guarded by the truthiness of its optional string argument.\<close>

definition when_given ::
  "string option \<Rightarrow> (string \<Rightarrow> error + player list) \<Rightarrow> player list \<Rightarrow> error + player list" where
  "when_given arg f df = (case arg of None \<Rightarrow> Inr df | Some v \<Rightarrow> if v = [] then Inr df else f v)"

text \<open>
  \<open>sort_values('OVR', ascending=False)\<close> is the sorting routine of pandas. Its default
  algorithm is not stable, so the source does not fix the order among rows of equal rating.
  The two methods that sort therefore take the routine as their first argument
  \<open>sort_values\<close>; what is known of it is \<open>descending_sort\<close>: it rearranges the rows
  it is given so that the ratings descend.
\<close>

definition descending_sort :: "(player list \<Rightarrow> player list) \<Rightarrow> bool" where
  "descending_sort sort_values =
     (\<forall>df. mset (sort_values df) = mset df \<and>
           sorted_wrt (\<lambda>a b. OVR b \<le> OVR a) (sort_values df))"

definition search_players ::
  "(player list \<Rightarrow> player list) \<Rightarrow> recommender \<Rightarrow> string option \<Rightarrow> string option \<Rightarrow> int option \<Rightarrow> int option \<Rightarrow>
   string option \<Rightarrow> string option \<Rightarrow> string option \<Rightarrow> int \<Rightarrow> error + player list" where
  "search_players sort_values r query position min_overall max_overall nation league team limit =
     (let df = data r in
      bind_res (when_given query
                  (\<lambda>q. where_contains (py_lower q) True (\<lambda>p. py_lower (Name p)) df) df) (\<lambda>df.
      bind_res (when_given position (\<lambda>v. where_contains v False Position df) df) (\<lambda>df.
      let df = (case min_overall of None \<Rightarrow> df | Some m \<Rightarrow> filter (\<lambda>p. m \<le> OVR p) df);
          df = (case max_overall of None \<Rightarrow> df | Some m \<Rightarrow> filter (\<lambda>p. OVR p \<le> m) df)
      in
      bind_res (when_given nation (\<lambda>v. where_contains v False Nation df) df) (\<lambda>df.
      bind_res (when_given league (\<lambda>v. where_contains v False League df) df) (\<lambda>df.
      bind_res (when_given team (\<lambda>v. where_contains v False Team df) df) (\<lambda>df.
        Inr (py_head limit (sort_values df))))))))"

definition get_top_players ::
  "(player list \<Rightarrow> player list) \<Rightarrow> recommender \<Rightarrow> int \<Rightarrow> string option \<Rightarrow> error + player list" where
  "get_top_players sort_values r n position =
     (let df = data r;
          df = (if truthy position then filter (\<lambda>p. Position_Category p = position) df else df)
      in Inr (py_head n (sort_values df)))"

section \<open>The recommender as an object in a store\<close>

text \<open>
  The methods above compute on values. To state what a query does to the objects of the
  running program, the same methods are run against a store of objects addressed by
  references. The recommender object holds four references; a query allocates the objects
  the source creates (the copy made by \<open>self.data.copy()\<close>, the dictionary made by
  \<open>to_dict()\<close> for every returned row) and writes where the source writes (the score key
  set on each new dictionary).
\<close>

datatype obj =
    RecommenderObj nat nat nat nat
  | Frame "player list"
  | Array matrix
  | NameList "string list"
  | Dict player "(string \<times> real) list"

type_synonym store = "obj list"

definition alloc :: "obj \<Rightarrow> store \<Rightarrow> nat \<times> store" where
  "alloc ob h = (length h, h @ [ob])"

definition deref :: "store \<Rightarrow> nat \<Rightarrow> obj option" where
  "deref h a = (if a < length h then Some (h ! a) else None)"

text \<open>\<open>d[key] = v\<close> on the dictionary at reference \<open>a\<close>.\<close>

definition dict_setitem :: "nat \<Rightarrow> string \<Rightarrow> real \<Rightarrow> store \<Rightarrow> store" where
  "dict_setitem a key v h =
     (case deref h a of
        Some (Dict p kv) \<Rightarrow> h[a := Dict p (kv @ [(key, v)])]
      | _ \<Rightarrow> h)"

text \<open>
  The state of the recommender at reference \<open>self\<close>: the four objects its attributes
  point to. \<open>None\<close> when \<open>self\<close> is not a recommender whose attributes are set.
\<close>

definition load_recommender :: "store \<Rightarrow> nat \<Rightarrow> recommender option" where
  "load_recommender h self =
     (case deref h self of
        Some (RecommenderObj d nf fn sm) \<Rightarrow>
          (case (deref h d, deref h nf, deref h fn, deref h sm) of
             (Some (Frame dd), Some (Array nn), Some (NameList ff), Some (Array ss)) \<Rightarrow>
               Some \<lparr>data = dd, normalized_features = nn, feature_names = ff,
                     similarity_matrix = ss\<rparr>
           | _ \<Rightarrow> None)
      | _ \<Rightarrow> None)"

text \<open>
  The final loop of both recommendation methods: for every selected index a new
  dictionary is made from the row, the score is stored in it under \<open>key\<close>, and its
  reference is appended to the result.
\<close>

fun scored_dicts :: "player list \<Rightarrow> string \<Rightarrow> (nat \<times> real) list \<Rightarrow> store \<Rightarrow> nat list \<times> store" where
  "scored_dicts df key [] h = ([], h)"
| "scored_dicts df key ((idx, score) # rest) h =
     (let (a, h1) = alloc (Dict (df ! idx) []) h;
          h2 = dict_setitem a key score h1;
          (refs, h3) = scored_dicts df key rest h2
      in (a # refs, h3))"

text \<open>\<open>df.to_dict('records')\<close>: one new dictionary per row.\<close>

fun record_dicts :: "player list \<Rightarrow> store \<Rightarrow> nat list \<times> store" where
  "record_dicts [] h = ([], h)"
| "record_dicts (p # ps) h =
     (let (a, h1) = alloc (Dict p []) h;
          (refs, h2) = record_dicts ps h1
      in (a # refs, h2))"

definition recommend_similar_obj ::
  "nat \<Rightarrow> string \<Rightarrow> int \<Rightarrow> bool \<Rightarrow> int option \<Rightarrow> store \<Rightarrow> (error + nat list) \<times> store" where
  "recommend_similar_obj self player_name n_recommendations same_position max_age_diff h =
     (case load_recommender h self of
        None \<Rightarrow> (Inl AttributeError, h)
      | Some r \<Rightarrow>
          (case similar_ranked r player_name n_recommendations same_position max_age_diff of
             Inl e \<Rightarrow> (Inl e, h)
           | Inr ranked \<Rightarrow>
               (let (refs, h') = scored_dicts (data r) ''similarity_score'' ranked h
                in (Inr refs, h'))))"

definition recommend_by_attributes_obj ::
  "nat \<Rightarrow> (string \<rightharpoonup> real) \<Rightarrow> int \<Rightarrow> string option \<Rightarrow> store \<Rightarrow> (error + nat list) \<times> store" where
  "recommend_by_attributes_obj self target_attributes n_recommendations position h =
     (case load_recommender h self of
        None \<Rightarrow> (Inl AttributeError, h)
      | Some r \<Rightarrow>
          (case attribute_ranked r target_attributes n_recommendations position of
             Inl e \<Rightarrow> (Inl e, h)
           | Inr ranked \<Rightarrow>
               (let (refs, h') = scored_dicts (data r) ''match_score'' ranked h
                in (Inr refs, h'))))"

definition search_players_obj ::
  "(player list \<Rightarrow> player list) \<Rightarrow> nat \<Rightarrow> string option \<Rightarrow> string option \<Rightarrow> int option \<Rightarrow> int option \<Rightarrow>
   string option \<Rightarrow> string option \<Rightarrow> string option \<Rightarrow> int \<Rightarrow> store \<Rightarrow> (error + nat list) \<times> store" where
  "search_players_obj sort_values self query position min_overall max_overall nation league team
     limit h =
     (case load_recommender h self of
        None \<Rightarrow> (Inl AttributeError, h)
      | Some r \<Rightarrow>
          (let (df, h1) = alloc (Frame (data r)) h in
           case search_players sort_values r query position min_overall max_overall nation league
                  team limit of
             Inl e \<Rightarrow> (Inl e, h1)
           | Inr rows \<Rightarrow> (let (refs, h2) = record_dicts rows h1 in (Inr refs, h2))))"

definition get_top_players_obj ::
  "(player list \<Rightarrow> player list) \<Rightarrow> nat \<Rightarrow> int \<Rightarrow> string option \<Rightarrow> store \<Rightarrow> (error + nat list) \<times> store" where
  "get_top_players_obj sort_values self n position h =
     (case load_recommender h self of
        None \<Rightarrow> (Inl AttributeError, h)
      | Some r \<Rightarrow>
          (let (df, h1) = alloc (Frame (data r)) h in
           case get_top_players sort_values r n position of
             Inl e \<Rightarrow> (Inl e, h1)
           | Inr rows \<Rightarrow> (let (refs, h2) = record_dicts rows h1 in (Inr refs, h2))))"

definition get_player_details_obj ::
  "nat \<Rightarrow> string \<Rightarrow> store \<Rightarrow> (error + nat option) \<times> store" where
  "get_player_details_obj self player_name h =
     (case load_recommender h self of
        None \<Rightarrow> (Inl AttributeError, h)
      | Some r \<Rightarrow>
          (case get_player_details r player_name of
             Inl e \<Rightarrow> (Inl e, h)
           | Inr None \<Rightarrow> (Inr None, h)
           | Inr (Some p) \<Rightarrow> (let (a, h1) = alloc (Dict p []) h in (Inr (Some a), h1))))"

text \<open>Every object of \<open>h\<close> is still in \<open>h'\<close>, at the same reference and unchanged.\<close>

definition preserved :: "store \<Rightarrow> store \<Rightarrow> bool" where
  "preserved h h' = (take (length h) h' = h)"

section \<open>Specification-side notions\<close>

text \<open>
  A pattern without special characters of the regular-expression syntax, and the
  case-insensitive substring test the documentation of the search speaks of.
\<close>

definition literal_pattern :: "string \<Rightarrow> bool" where
  "literal_pattern pat = list_all (\<lambda>c. \<not> re_special c) pat"

definition ci_contains :: "string \<Rightarrow> string \<Rightarrow> bool" where
  "ci_contains pat s = py_in (py_lower pat) (py_lower s)"

text \<open>An optional string filter that is absent or empty accepts every row.\<close>

definition opt_contains :: "string option \<Rightarrow> string \<Rightarrow> bool" where
  "opt_contains arg s = (case arg of None \<Rightarrow> True | Some v \<Rightarrow> ci_contains v s)"

definition opt_literal :: "string option \<Rightarrow> bool" where
  "opt_literal arg = (case arg of None \<Rightarrow> True | Some v \<Rightarrow> literal_pattern v)"

text \<open>The conjunction of all search filters on one row.\<close>

definition search_match ::
  "string option \<Rightarrow> string option \<Rightarrow> int option \<Rightarrow> int option \<Rightarrow>
   string option \<Rightarrow> string option \<Rightarrow> string option \<Rightarrow> player \<Rightarrow> bool" where
  "search_match query position min_overall max_overall nation league team p =
     (opt_contains query (Name p) \<and> opt_contains position (Position p) \<and>
      (case min_overall of None \<Rightarrow> True | Some m \<Rightarrow> m \<le> OVR p) \<and>
      (case max_overall of None \<Rightarrow> True | Some m \<Rightarrow> OVR p \<le> m) \<and>
      opt_contains nation (Nation p) \<and> opt_contains league (League p) \<and>
      opt_contains team (Team p))"

section \<open>A three-player example\<close>

text \<open>
  Players A (rating 90, forward), B (85, forward) and C (80, defender), with two raw
  features each.
\<close>

definition player_A :: player where
  "player_A = \<lparr>Name = ''A'', OVR = 90, Position = ''ST'', Age = Some 30, Nation = ''Spain'',
     League = ''LaLiga'', Team = ''Madrid'', Position_Category = Some ''Forward''\<rparr>"

definition player_B :: player where
  "player_B = \<lparr>Name = ''B'', OVR = 85, Position = ''LW'', Age = Some 24, Nation = ''France'',
     League = ''Ligue 1'', Team = ''Paris'', Position_Category = Some ''Forward''\<rparr>"

definition player_C :: player where
  "player_C = \<lparr>Name = ''C'', OVR = 80, Position = ''CB'', Age = Some 28, Nation = ''Italy'',
     League = ''Serie A'', Team = ''Milan'', Position_Category = Some ''Defender''\<rparr>"

definition example_data :: "player list" where
  "example_data = [player_A, player_B, player_C]"

definition example_features :: matrix where
  "example_features = [[10, 0], [6, 4], [0, 5]]"

definition example_normalized :: matrix where
  "example_normalized = [[1, 0], [3 / 5, 4 / 5], [0, 1]]"

definition example_recommender :: recommender where
  "example_recommender =
     \<lparr>data = example_data, normalized_features = example_normalized,
      feature_names = [''PAC'', ''DEF''],
      similarity_matrix = [[1, 3 / 5, 0], [3 / 5, 1, 4 / 5], [0, 4 / 5, 1]]\<rparr>"

definition example_store :: store where
  "example_store =
     [Frame example_data, Array example_normalized, NameList [''PAC'', ''DEF''],
      Array [[1, 3 / 5, 0], [3 / 5, 1, 4 / 5], [0, 4 / 5, 1]], RecommenderObj 0 1 2 3]"

section \<open>Properties\<close>

subsection \<open>Normalisation\<close>

lemma normalize_features_entry:
  assumes "features \<noteq> []" "i < length features" "j < ncols features"
  shows "\<exists>N. normalize_features features = Inr N \<and> length N = length features \<and>
           length (N ! i) = ncols features \<and>
           N ! i ! j = (features ! i ! j - Min (set (column features j))) /
              (if Max (set (column features j)) = Min (set (column features j)) then 1
               else Max (set (column features j)) - Min (set (column features j)))"
  using assms by (simp add: normalize_features_def Let_def)

text \<open>
  C1. On a matrix with at least one row, \<open>normalize_features\<close> returns a matrix of the
  same shape in which, column by column, an entry equal to the column minimum becomes 0,
  an entry equal to the column maximum becomes 1 when the column is not constant, and every
  entry of a constant column becomes 0.
\<close>

theorem normalize_features_min_max:
  assumes "features \<noteq> []" and "rectangular features"
  shows "\<exists>N. normalize_features features = Inr N \<and> length N = length features \<and>
    (\<forall>i<length features. \<forall>j<ncols features.
       length (N ! i) = ncols features \<and>
       (features ! i ! j = Min (set (column features j)) \<longrightarrow> N ! i ! j = 0) \<and>
       (features ! i ! j = Max (set (column features j)) \<and>
          Max (set (column features j)) \<noteq> Min (set (column features j)) \<longrightarrow> N ! i ! j = 1) \<and>
       (Max (set (column features j)) = Min (set (column features j)) \<longrightarrow> N ! i ! j = 0))"
proof -
  obtain N where N: "normalize_features features = Inr N"
    using assms(1) by (simp add: normalize_features_def Let_def)
  have len: "length N = length features"
    using N assms(1) by (auto simp: normalize_features_def Let_def)
  have "\<forall>i<length features. \<forall>j<ncols features.
       length (N ! i) = ncols features \<and>
       (features ! i ! j = Min (set (column features j)) \<longrightarrow> N ! i ! j = 0) \<and>
       (features ! i ! j = Max (set (column features j)) \<and>
          Max (set (column features j)) \<noteq> Min (set (column features j)) \<longrightarrow> N ! i ! j = 1) \<and>
       (Max (set (column features j)) = Min (set (column features j)) \<longrightarrow> N ! i ! j = 0)"
  proof (intro allI impI)
    fix i j assume i: "i < length features" and j: "j < ncols features"
    let ?col = "column features j"
    from normalize_features_entry[OF assms(1) i j] N
    have l: "length (N ! i) = ncols features"
      and e: "N ! i ! j = (features ! i ! j - Min (set ?col)) /
              (if Max (set ?col) = Min (set ?col) then 1 else Max (set ?col) - Min (set ?col))"
      by auto
    have mem: "features ! i ! j \<in> set ?col"
      using i by (auto simp: column_def)
    have lo: "Min (set ?col) \<le> features ! i ! j" using mem by simp
    have hi: "features ! i ! j \<le> Max (set ?col)" using mem by simp
    show "length (N ! i) = ncols features \<and>
       (features ! i ! j = Min (set ?col) \<longrightarrow> N ! i ! j = 0) \<and>
       (features ! i ! j = Max (set ?col) \<and> Max (set ?col) \<noteq> Min (set ?col) \<longrightarrow> N ! i ! j = 1) \<and>
       (Max (set ?col) = Min (set ?col) \<longrightarrow> N ! i ! j = 0)"
      using l e lo hi by auto
  qed
  with N len show ?thesis by blast
qed

theorem normalize_features_min_max_witness:
  "[[1, 5], [3, 5], [2, 5 :: real]] \<noteq> [] \<and> rectangular [[1, 5], [3, 5], [2, 5]] \<and>
   normalize_features [[1, 5], [3, 5], [2, 5]] = Inr [[0, 0], [1, 0], [1 / 2, 0]]"
proof -
  have r: "rectangular [[1, 5], [3, 5], [2, 5 :: real]]"
    by (simp add: rectangular_def ncols_def)
  have e: "normalize_features [[1, 5], [3, 5], [2, 5]] = Inr [[0, 0], [1, 0], [1 / 2, 0]]"
    by (simp add: normalize_features_def ncols_def column_def Let_def upt_rec)
  from normalize_features_min_max[OF _ r] e r show ?thesis by simp
qed

text \<open>The normalised features of the example are those of its raw features.\<close>

lemma example_normalization: "normalize_features example_features = Inr example_normalized"
  by (simp add: normalize_features_def example_features_def example_normalized_def
      ncols_def column_def Let_def upt_rec)

subsection \<open>Literal patterns and substring search\<close>

lemma re_special_lower: "re_special (lower_char c) = re_special c"
  by (simp add: lower_char_def re_special_def)

lemma literal_pattern_lower: "literal_pattern p \<Longrightarrow> literal_pattern (py_lower p)"
  by (induction p) (simp_all add: literal_pattern_def py_lower_def re_special_lower)

lemma re_items_literal: "literal_pattern p \<Longrightarrow> re_items p = Inr (map Lit p)"
  by (induction p) (auto simp: literal_pattern_def bind_res_def re_special_def)

lemma re_compile_literal:
  assumes "literal_pattern p"
  shows "re_compile p = Inr (map Lit p)"
proof (cases p)
  case Nil
  then show ?thesis by (simp add: re_compile_def)
next
  case (Cons c cs)
  have "c \<notin> set ''*+?''"
    using assms Cons by (auto simp: literal_pattern_def re_special_def)
  then show ?thesis
    using re_items_literal[OF assms] Cons by (simp add: re_compile_def)
qed

lemma match_here_cs: "re_match_here False (map Lit p) s = starts_with p s"
  by (induction p s rule: starts_with.induct) auto

lemma match_here_ci: "re_match_here True (map Lit p) s = starts_with (py_lower p) (py_lower s)"
  by (induction p s rule: starts_with.induct) (auto simp: py_lower_def)

lemma search_cs: "re_search False (map Lit p) s = py_in p s"
  by (induction s) (auto simp: match_here_cs)

lemma search_ci: "re_search True (map Lit p) s = ci_contains p s"
  by (induction s) (auto simp: match_here_ci ci_contains_def py_lower_def)

lemma str_contains_literal:
  "literal_pattern p \<Longrightarrow>
   str_contains p cs col = Inr (map (\<lambda>s. if cs then py_in p s else ci_contains p s) col)"
  by (cases cs) (simp_all add: str_contains_def bind_res_def re_compile_literal search_cs search_ci)

subsection \<open>Player lookup\<close>

lemma mask_index_map:
  "mask_index (map P xs) = filter (\<lambda>i. P (xs ! i)) [0..<length xs]"
  unfolding mask_index_def by (rule filter_cong) auto

lemma mask_index_bound: "i \<in> set (mask_index hits) \<Longrightarrow> i < length hits"
  by (simp add: mask_index_def)

lemma str_contains_length: "str_contains pat cs col = Inr hits \<Longrightarrow> length hits = length col"
  by (auto simp: str_contains_def bind_res_def split: sum.splits)

lemma find_filter: "find P xs = (if filter P xs = [] then None else Some (hd (filter P xs)))"
  by (induction xs) auto

lemma find_player_index_bound:
  assumes "find_player_index df player_name = Inr (Some i)"
  shows "i < length df"
proof -
  let ?names = "map (\<lambda>p. py_lower (Name p)) df"
  let ?exact = "mask_index (map (\<lambda>n. n = py_lower player_name) ?names)"
  show ?thesis
  proof (cases "?exact = []")
    case False
    then have "i = hd ?exact"
      using assms by (simp add: find_player_index_def Let_def bind_res_def)
    then have "i \<in> set ?exact" using False by simp
    then show ?thesis using mask_index_bound by fastforce
  next
    case True
    then obtain hits where h: "str_contains (py_lower player_name) True ?names = Inr hits"
      and i: "mask_index hits \<noteq> []" "i = hd (mask_index hits)"
      using assms
      by (auto simp: find_player_index_def Let_def bind_res_def split: sum.splits if_splits)
    from i have "i \<in> set (mask_index hits)" by simp
    then have "i < length hits" by (rule mask_index_bound)
    then show ?thesis using str_contains_length[OF h] by simp
  qed
qed

lemma find_player_index_literal:
  assumes "literal_pattern player_name"
  shows "find_player_index df player_name =
     Inr (case find (\<lambda>i. py_lower (Name (df ! i)) = py_lower player_name) [0..<length df] of
            Some i \<Rightarrow> Some i
          | None \<Rightarrow> find (\<lambda>i. ci_contains player_name (Name (df ! i))) [0..<length df])"
proof -
  let ?l = "py_lower player_name"
  let ?names = "map (\<lambda>p. py_lower (Name p)) df"
  have lit: "literal_pattern ?l" using assms by (rule literal_pattern_lower)
  have exact: "mask_index (map (\<lambda>n. n = ?l) ?names)
      = filter (\<lambda>i. py_lower (Name (df ! i)) = ?l) [0..<length df]"
    using mask_index_map[of "\<lambda>p. py_lower (Name p) = ?l" df]
    by (simp add: o_def)
  have sub: "str_contains ?l True ?names = Inr (map (\<lambda>s. py_in ?l s) ?names)"
    using str_contains_literal[OF lit, of True] by simp
  have subidx: "mask_index (map (\<lambda>s. py_in ?l s) ?names)
      = filter (\<lambda>i. ci_contains player_name (Name (df ! i))) [0..<length df]"
    using mask_index_map[of "\<lambda>p. py_in ?l (py_lower (Name p))" df]
    by (simp add: o_def ci_contains_def)
  have fallback: "bind_res (str_contains ?l True ?names) (\<lambda>hits. Inr (mask_index hits))
      = Inr (filter (\<lambda>i. ci_contains player_name (Name (df ! i))) [0..<length df])"
    by (simp only: sub bind_res_def sum.case subidx)
  show ?thesis
    unfolding find_player_index_def Let_def exact fallback
    by (simp add: bind_res_def find_filter)
qed

text \<open>
  C6. The lookup tries the case-insensitive exact match first and falls back to
  \<open>str.contains\<close>, whose pattern is a regular expression: on the example dataset the
  name \<open>.\<close> resolves to the first player although no name equals it or contains it.
  For a name without special characters the fallback is the substring test
  (\<open>find_player_index_literal\<close>).
\<close>

theorem find_player_index_regex_fallback:
  "find_player_index example_data ''.'' = Inr (Some 0) \<and>
   \<not> list_ex (\<lambda>p. py_lower (Name p) = py_lower ''.'' \<or> py_in (py_lower ''.'') (py_lower (Name p)))
       example_data"
  by code_simp

text \<open>
  For a name without special characters that no row matches, the lookup finds nothing,
  and both callers then return their empty value.
\<close>

lemma find_player_index_absent:
  assumes "literal_pattern player_name"
      and "\<And>p. p \<in> set df \<Longrightarrow> \<not> ci_contains player_name (Name p)"
      and "\<And>p. p \<in> set df \<Longrightarrow> py_lower (Name p) \<noteq> py_lower player_name"
  shows "find_player_index df player_name = Inr None"
proof -
  have a: "find (\<lambda>i. py_lower (Name (df ! i)) = py_lower player_name) [0..<length df] = None"
    using assms(3) by (auto simp: find_None_iff)
  have b: "find (\<lambda>i. ci_contains player_name (Name (df ! i))) [0..<length df] = None"
    using assms(2) by (auto simp: find_None_iff)
  show ?thesis
    by (simp add: find_player_index_literal[OF assms(1)] a b)
qed

lemma not_found_results:
  assumes "find_player_index (data r) player_name = Inr None"
  shows "recommend_similar r player_name n sp mad = Inr [] \<and>
         get_player_details r player_name = Inr None"
  using assms
  by (simp add: recommend_similar_def similar_ranked_def get_player_details_def bind_res_def)

text \<open>
  C7. A name that matches no row, exactly or as a substring, but is not a valid regular
  expression makes both \<open>recommend_similar\<close> and \<open>get_player_details\<close> raise: the
  evaluation at the name \<open>*\<close> on the example recommender.
\<close>

theorem not_found_raises:
  "recommend_similar example_recommender ''*'' 10 True None = Inl ReError \<and>
   get_player_details example_recommender ''*'' = Inl ReError \<and>
   \<not> list_ex (\<lambda>p. py_lower (Name p) = py_lower ''*'' \<or> py_in (py_lower ''*'') (py_lower (Name p)))
       (data example_recommender)"
  by code_simp

subsection \<open>Similar players\<close>

lemma collect_filter:
  "collect keep xs = Inr cs \<Longrightarrow> cs = filter (\<lambda>c. keep (fst c) = Inr True) xs"
proof (induction xs arbitrary: cs)
  case Nil
  then show ?case by simp
next
  case (Cons x xs)
  obtain idx score where x: "x = (idx, score)" by (cases x)
  from Cons.prems x obtain k rest where k: "keep idx = Inr k"
    and rest: "collect keep xs = Inr rest"
    and cs: "cs = (if k then (idx, score) # rest else rest)"
    by (auto simp: bind_res_def split: sum.splits)
  from Cons.IH[OF rest] have "rest = filter (\<lambda>c. keep (fst c) = Inr True) xs" .
  then show ?case using k cs x by auto
qed

lemma collect_total:
  "(\<And>c. c \<in> set xs \<Longrightarrow> \<exists>b. keep (fst c) = Inr b) \<Longrightarrow> \<exists>cs. collect keep xs = Inr cs"
proof (induction xs)
  case Nil
  then show ?case by simp
next
  case (Cons x xs)
  obtain idx score where x: "x = (idx, score)" by (cases x)
  from Cons.prems[of x] x obtain b where b: "keep idx = Inr b" by auto
  from Cons.IH Cons.prems obtain cs where "collect keep xs = Inr cs" by auto
  then show ?case using b x by (simp add: bind_res_def)
qed

lemma similar_keep_True:
  "similar_keep df player_idx pp pa sp mad idx = Inr True \<Longrightarrow>
     idx \<noteq> player_idx \<and> idx < length df \<and>
     (sp \<and> truthy pp \<longrightarrow> Position_Category (df ! idx) = pp)"
  by (auto simp: similar_keep_def Let_def split: if_splits)

lemma set_py_head: "set (py_head n xs) \<subseteq> set xs"
  by (auto simp: py_head_def dest: in_set_takeD)

lemma set_sort_by_score: "set (sort_by_score xs) = set xs"
  by (simp add: sort_by_score_def)

lemma similar_ranked_sound:
  assumes "find_player_index (data r) player_name = Inr (Some i)"
      and "similar_ranked r player_name n sp mad = Inr ranked"
      and "c \<in> set ranked"
  shows "fst c \<noteq> i \<and> fst c < length (data r) \<and>
         (sp \<and> truthy (Position_Category (data r ! i)) \<longrightarrow>
            Position_Category (data r ! fst c) = Position_Category (data r ! i))"
proof -
  let ?keep = "similar_keep (data r) i (Position_Category (data r ! i)) (Age (data r ! i)) sp mad"
  from assms(1,2) obtain cands where
    cands: "collect ?keep (enumerate 0 (similarity_matrix r ! i)) = Inr cands"
    and ranked: "ranked = py_head n (sort_by_score cands)"
    by (auto simp: similar_ranked_def bind_res_def Let_def split: sum.splits if_splits)
  from assms(3) ranked have "c \<in> set cands"
    using set_py_head set_sort_by_score by fastforce
  then have "?keep (fst c) = Inr True"
    using collect_filter[OF cands] by simp
  then show ?thesis by (rule similar_keep_True)
qed

lemma similar_keep_total:
  "idx < length df \<Longrightarrow> \<exists>b. similar_keep df player_idx pp pa sp mad idx = Inr b"
  by (auto simp: similar_keep_def Let_def)

lemma recommend_similar_returns:
  assumes "consistent r" and "find_player_index (data r) player_name = Inr found"
  shows "\<exists>recs. recommend_similar r player_name n sp mad = Inr recs"
proof (cases found)
  case None
  then show ?thesis using not_found_results assms(2) by blast
next
  case (Some i)
  have i: "i < length (data r)"
    using assms(2) Some find_player_index_bound by blast
  then have iS: "i < length (similarity_matrix r)"
    using assms(1) by (simp add: consistent_def)
  then have len: "length (similarity_matrix r ! i) = length (data r)"
    using assms(1) by (simp add: consistent_def)
  let ?keep = "similar_keep (data r) i (Position_Category (data r ! i)) (Age (data r ! i)) sp mad"
  have "\<exists>cs. collect ?keep (enumerate 0 (similarity_matrix r ! i)) = Inr cs"
  proof (rule collect_total)
    fix c assume "c \<in> set (enumerate 0 (similarity_matrix r ! i))"
    then have "fst c < length (data r)"
      using len by (auto simp: in_set_enumerate_eq)
    then show "\<exists>b. ?keep (fst c) = Inr b" by (rule similar_keep_total)
  qed
  then obtain cs where "collect ?keep (enumerate 0 (similarity_matrix r ! i)) = Inr cs" ..
  then show ?thesis
    using assms(2) Some iS
    by (simp add: recommend_similar_def similar_ranked_def bind_res_def Let_def)
qed

text \<open>
  C2. When the name resolves to index \<open>i\<close> and \<open>recommend_similar\<close> returns, the
  returned rows are those at the ranked indices, \<open>i\<close> is not among these indices, and,
  the names of the dataset being distinct (as after \<open>drop_duplicates\<close>), the row of the
  resolved player is not among the returned rows; for every count, position flag and
  age bound.
\<close>

theorem recommend_similar_excludes_self:
  assumes "find_player_index (data r) player_name = Inr (Some i)"
      and "recommend_similar r player_name n same_position max_age_diff = Inr recs"
  shows "\<exists>ranked. similar_ranked r player_name n same_position max_age_diff = Inr ranked \<and>
           recs = map (\<lambda>(idx, score). (data r ! idx, score)) ranked \<and>
           i \<notin> fst ` set ranked \<and>
           (distinct (map Name (data r)) \<longrightarrow> data r ! i \<notin> fst ` set recs)"
proof -
  from assms(2) obtain ranked where
    ranked: "similar_ranked r player_name n same_position max_age_diff = Inr ranked"
    and recs: "recs = map (\<lambda>(idx, score). (data r ! idx, score)) ranked"
    by (auto simp: recommend_similar_def bind_res_def split: sum.splits)
  have i: "i < length (data r)"
    using assms(1) by (rule find_player_index_bound)
  have sound: "\<And>c. c \<in> set ranked \<Longrightarrow> fst c \<noteq> i \<and> fst c < length (data r)"
    using similar_ranked_sound[OF assms(1) ranked] by blast
  have notin: "i \<notin> fst ` set ranked"
    using sound by auto
  have "data r ! i \<notin> fst ` set recs" if d: "distinct (map Name (data r))"
  proof
    assume "data r ! i \<in> fst ` set recs"
    then obtain c where c: "c \<in> set ranked" and eq: "data r ! fst c = data r ! i"
      using recs by (auto simp: case_prod_beta)
    from sound[OF c] have ne: "fst c \<noteq> i" and lt: "fst c < length (data r)" by auto
    from eq have m: "map Name (data r) ! fst c = map Name (data r) ! i"
      using lt i by simp
    have l1: "fst c < length (map Name (data r))" and l2: "i < length (map Name (data r))"
      using lt i by simp_all
    have "fst c = i"
      using nth_eq_iff_index_eq[OF d l1 l2] m by blast
    with ne show False by simp
  qed
  with ranked recs notin show ?thesis by blast
qed

theorem recommend_similar_excludes_self_witness:
  "find_player_index (data example_recommender) ''a'' = Inr (Some 0) \<and>
   recommend_similar example_recommender ''a'' 5 False None
     = Inr [(player_B, 3 / 5), (player_C, 0)] \<and>
   distinct (map Name (data example_recommender)) \<and>
   data example_recommender ! 0 \<notin> fst ` set [(player_B, 3 / 5), (player_C, 0 :: real)]"
proof -
  have h1: "find_player_index (data example_recommender) ''a'' = Inr (Some 0)"
    by code_simp
  have h2: "recommend_similar example_recommender ''a'' 5 False None
     = Inr [(player_B, 3 / 5), (player_C, 0)]"
    by code_simp
  have d: "distinct (map Name (data example_recommender))"
    by code_simp
  from recommend_similar_excludes_self[OF h1 h2] d
  have "data example_recommender ! 0 \<notin> fst ` set [(player_B, 3 / 5), (player_C, 0 :: real)]"
    by blast
  with h1 h2 d show ?thesis by blast
qed

text \<open>
  The category column written by \<open>process_for_training\<close> is derived, and the example
  dataset carries exactly this column.
\<close>

lemma add_position_category_derived: "derived_categories (add_position_category df)"
  by (auto simp: derived_categories_def add_position_category_def)

lemma example_categories: "add_position_category example_data = example_data"
  by code_simp

lemma get_position_category_nonempty: "get_position_category s \<noteq> []"
  by (simp add: get_position_category_def Let_def)

text \<open>
  C4. With \<open>same_position=True\<close>, on a dataset whose category column was derived by
  \<open>get_position_category\<close>, every returned row has the position category of the
  resolved player.
\<close>

theorem recommend_similar_same_position:
  assumes "find_player_index (data r) player_name = Inr (Some i)"
      and "recommend_similar r player_name n True max_age_diff = Inr recs"
      and "derived_categories (data r)"
      and "rec \<in> set recs"
  shows "Position_Category (fst rec) = Position_Category (data r ! i) \<and>
         get_position_category (Position (fst rec)) =
           get_position_category (Position (data r ! i))"
proof -
  from assms(2) obtain ranked where
    ranked: "similar_ranked r player_name n True max_age_diff = Inr ranked"
    and recs: "recs = map (\<lambda>(idx, score). (data r ! idx, score)) ranked"
    by (auto simp: recommend_similar_def bind_res_def split: sum.splits)
  have i: "i < length (data r)"
    using assms(1) by (rule find_player_index_bound)
  have src: "Position_Category (data r ! i) = Some (get_position_category (Position (data r ! i)))"
    using assms(3) i by (simp add: derived_categories_def)
  then have tr: "truthy (Position_Category (data r ! i))"
    by (simp add: get_position_category_nonempty)
  from assms(4) recs obtain c where c: "c \<in> set ranked" and r: "fst rec = data r ! fst c"
    by (auto simp: case_prod_beta)
  from similar_ranked_sound[OF assms(1) ranked c] tr
  have lt: "fst c < length (data r)"
    and eq: "Position_Category (data r ! fst c) = Position_Category (data r ! i)" by auto
  have "Position_Category (data r ! fst c) =
      Some (get_position_category (Position (data r ! fst c)))"
    using assms(3) lt by (simp add: derived_categories_def)
  with eq src r show ?thesis by simp
qed

theorem recommend_similar_same_position_witness:
  "find_player_index (data example_recommender) ''A'' = Inr (Some 0) \<and>
   recommend_similar example_recommender ''A'' 2 True None = Inr [(player_B, 3 / 5)] \<and>
   derived_categories (data example_recommender) \<and>
   (player_B, 3 / 5) \<in> set [(player_B, 3 / 5 :: real)] \<and>
   Position_Category (fst (player_B, 3 / 5 :: real)) = Position_Category (data example_recommender ! 0)"
proof -
  have h1: "find_player_index (data example_recommender) ''A'' = Inr (Some 0)"
    by code_simp
  have h2: "recommend_similar example_recommender ''A'' 2 True None = Inr [(player_B, 3 / 5)]"
    by code_simp
  have h3: "derived_categories (data example_recommender)"
    by code_simp
  have h4: "(player_B, 3 / 5) \<in> set [(player_B, 3 / 5 :: real)]"
    by simp
  from recommend_similar_same_position[OF h1 h2 h3 h4] h1 h2 h3 h4
  show ?thesis by blast
qed

subsection \<open>The similarity matrix\<close>

lemma dot_commute: "dot xs ys = dot ys xs"
proof (induction xs arbitrary: ys)
  case Nil
  then show ?case by (simp add: dot_def)
next
  case (Cons x xs)
  then show ?case by (cases ys) (simp_all add: dot_def)
qed

lemma cosine_similarity_entry:
  assumes "cosine_similarity X Y = Inr S"
  shows "length S = length X"
    and "i < length X \<Longrightarrow> length (S ! i) = length Y"
    and "i < length X \<Longrightarrow> j < length Y \<Longrightarrow>
           S ! i ! j = dot (l2_normalize (X ! i)) (l2_normalize (Y ! j))"
  using assms by (auto simp: cosine_similarity_def split: if_splits)

text \<open>
  C8. The matrix stored by a successful \<open>fit\<close> is square, with one row per feature
  vector, and its entry at \<open>(i, j)\<close> equals its entry at \<open>(j, i)\<close> for all row
  indices \<open>i\<close> and \<open>j\<close>.
\<close>

theorem fit_similarity_symmetric:
  assumes "fit d nf names = Inr r"
      and "i < length nf" and "j < length nf"
  shows "length (similarity_matrix r) = length nf \<and>
         length (similarity_matrix r ! i) = length nf \<and>
         similarity_matrix r ! i ! j = similarity_matrix r ! j ! i"
proof -
  from assms(1) obtain S where S: "cosine_similarity nf nf = Inr S"
    and r: "similarity_matrix r = S"
    by (auto simp: fit_def bind_res_def split: sum.splits)
  have "S ! i ! j = dot (l2_normalize (nf ! i)) (l2_normalize (nf ! j))"
    using cosine_similarity_entry(3)[OF S assms(2,3)] .
  also have "\<dots> = dot (l2_normalize (nf ! j)) (l2_normalize (nf ! i))"
    by (rule dot_commute)
  also have "\<dots> = S ! j ! i"
    using cosine_similarity_entry(3)[OF S assms(3,2)] by simp
  finally have "S ! i ! j = S ! j ! i" .
  then show ?thesis
    using r cosine_similarity_entry(1)[OF S] cosine_similarity_entry(2)[OF S assms(2)] by simp
qed

lemma example_fit:
  "fit example_data example_normalized [''PAC'', ''DEF''] = Inr example_recommender"
  by (simp add: fit_def cosine_similarity_def check_array_def rectangular_def ncols_def
      example_normalized_def example_recommender_def dot_def l2_normalize_def bind_res_def Let_def)

theorem fit_similarity_symmetric_witness:
  "fit example_data example_normalized [''PAC'', ''DEF''] = Inr example_recommender \<and>
   (1::nat) < length example_normalized \<and> (2::nat) < length example_normalized \<and>
   similarity_matrix example_recommender ! 1 ! 2 = 4 / 5 \<and>
   similarity_matrix example_recommender ! 2 ! 1 = 4 / 5"
proof -
  have l1: "(1::nat) < length example_normalized" and l2: "(2::nat) < length example_normalized"
    by (simp_all add: example_normalized_def)
  have v: "similarity_matrix example_recommender ! 1 ! 2 = 4 / 5"
    by (simp add: example_recommender_def)
  from fit_similarity_symmetric[OF example_fit l1 l2] v l1 l2 example_fit
  show ?thesis by simp
qed

subsection \<open>Recommendation by attributes\<close>

lemma fill_target:
  "k + length names \<le> length tv \<Longrightarrow>
   fold (\<lambda>(i, feature) tv. tv[i := g feature]) (enumerate k names) tv
     = take k tv @ map g names @ drop (k + length names) tv"
proof (induction names arbitrary: k tv)
  case Nil
  then show ?case by simp
next
  case (Cons f fs)
  have k: "k < length tv" using Cons.prems by simp
  have "fold (\<lambda>(i, feature) tv. tv[i := g feature]) (enumerate k (f # fs)) tv
      = fold (\<lambda>(i, feature) tv. tv[i := g feature]) (enumerate (Suc k) fs) (tv[k := g f])"
    by simp
  also have "\<dots> = take (Suc k) (tv[k := g f]) @ map g fs @ drop (Suc k + length fs) (tv[k := g f])"
    using Cons.prems by (intro Cons.IH) simp
  also have "take (Suc k) (tv[k := g f]) = take k tv @ [g f]"
    using k by (simp add: take_Suc_conv_app_nth)
  also have "drop (Suc k + length fs) (tv[k := g f]) = drop (k + length (f # fs)) tv"
    by simp
  finally show ?case by simp
qed

lemma target_vector_map:
  "target_vector names ta = map (\<lambda>f. case ta f of None \<Rightarrow> 50 | Some v \<Rightarrow> v) names"
  unfolding target_vector_def
  using fill_target[of 0 names "replicate (length names) 0"
      "\<lambda>f. case ta f of None \<Rightarrow> 50 | Some v \<Rightarrow> v"]
  by simp


lemma match_scores_consistent:
  assumes "consistent r"
      and "normalize_target (target_vector (feature_names r) ta) = Inr nv"
      and "length nv = length (feature_names r)"
  shows "match_scores r ta
     = Inr (map (\<lambda>row. dot (l2_normalize nv) (l2_normalize row)) (normalized_features r))"
proof -
  have nf: "check_array (normalized_features r)"
    and cols: "ncols (normalized_features r) = length (feature_names r)"
    using assms(1) by (simp_all add: consistent_def)
  have pos: "0 < length nv" using nf cols assms(3) by (simp add: check_array_def)
  have one: "check_array [nv]" using pos by (simp add: check_array_def rectangular_def ncols_def)
  have same: "ncols [nv] = ncols (normalized_features r)"
    using cols assms(3) by (simp add: ncols_def)
  show ?thesis
    using assms(2) one nf same
    by (simp add: match_scores_def bind_res_def cosine_similarity_def)
qed

lemma consistent_names_nonempty: "consistent r \<Longrightarrow> feature_names r \<noteq> []"
  by (auto simp: consistent_def check_array_def)

lemma example_consistent: "consistent example_recommender"
  by code_simp

lemma dot_zeros: "dot (replicate k 0) ys = 0"
proof (induction k arbitrary: ys)
  case 0
  then show ?case by (simp add: dot_def)
next
  case (Suc k)
  then show ?case by (cases ys) (simp_all add: dot_def)
qed

lemma l2_normalize_zeros: "l2_normalize (replicate k 0) = replicate k 0"
  by (simp add: l2_normalize_def dot_zeros Let_def)

lemma normalize_target_constant:
  assumes "0 < k"
  shows "normalize_target (replicate k c) = Inr (replicate k 0)"
proof -
  have "set (replicate k c) = {c}" using assms by auto
  then show ?thesis using assms by (simp add: normalize_target_def Let_def)
qed

lemma sort_key_constant:
  "(\<And>x. x \<in> set xs \<Longrightarrow> f x = c) \<Longrightarrow> sort_key f xs = xs"
proof (induction xs)
  case Nil
  then show ?case by simp
next
  case (Cons x xs)
  have "sort_key f xs = xs" using Cons by simp
  moreover have "insort_key f x xs = x # xs"
    using Cons.prems by (intro insort_is_Cons) simp
  ultimately show ?case by simp
qed

lemma py_head_map: "py_head n (map f xs) = map f (py_head n xs)"
  by (simp add: py_head_def take_map)

lemma nth_filter_indices:
  "map (\<lambda>i. xs ! i) (filter (\<lambda>i. P (xs ! i)) [0..<length xs]) = filter P xs"
proof -
  have "filter P (map (\<lambda>i. xs ! i) [0..<length xs])
      = map (\<lambda>i. xs ! i) (filter (P \<circ> (\<lambda>i. xs ! i)) [0..<length xs])"
    by (rule filter_map)
  then show ?thesis by (simp add: map_nth o_def)
qed

lemma attribute_keep_value:
  "idx < length df \<Longrightarrow>
   attribute_keep df position idx
     = Inr (\<not> (truthy position \<and> Position_Category (df ! idx) \<noteq> position))"
  by (simp add: attribute_keep_def Let_def)

lemma collect_attribute_zero:
  "collect (attribute_keep df position) (enumerate 0 (replicate (length df) 0))
     = Inr (map (\<lambda>i. (i, 0))
         (filter (\<lambda>i. \<not> (truthy position \<and> Position_Category (df ! i) \<noteq> position))
            [0..<length df]))"
proof -
  let ?xs = "enumerate 0 (replicate (length df) (0::real))"
  have xs: "?xs = map (\<lambda>i. (i, 0)) [0..<length df]"
    by (rule nth_equalityI) (simp_all add: nth_enumerate_eq)
  have "\<exists>cs. collect (attribute_keep df position) ?xs = Inr cs"
  proof (rule collect_total)
    fix c assume "c \<in> set ?xs"
    then have "fst c < length df" by (auto simp: in_set_enumerate_eq)
    then show "\<exists>b. attribute_keep df position (fst c) = Inr b"
      by (simp add: attribute_keep_value)
  qed
  then obtain cs where cs: "collect (attribute_keep df position) ?xs = Inr cs" ..
  have "cs = filter (\<lambda>c. attribute_keep df position (fst c) = Inr True) ?xs"
    using collect_filter[OF cs] .
  also have "\<dots> = map (\<lambda>i. (i, 0))
      (filter (\<lambda>i. attribute_keep df position i = Inr True) [0..<length df])"
    unfolding xs by (simp add: filter_map o_def)
  also have "filter (\<lambda>i. attribute_keep df position i = Inr True) [0..<length df]
      = filter (\<lambda>i. \<not> (truthy position \<and> Position_Category (df ! i) \<noteq> position)) [0..<length df]"
    by (rule filter_cong) (auto simp: attribute_keep_value)
  finally show ?thesis using cs by simp
qed






text \<open>
  C10. When every stored feature name resolves to the same value under the mapping (the
  empty mapping resolves every name to 50), the normalised target is the zero vector, every
  score is 0, and the result lists, in dataset order and with score 0, the rows that pass
  the position filter, cut by the slice \<open>[:n_recommendations]\<close>: the first
  \<open>n_recommendations\<close> of them when the count is not negative.
\<close>

theorem constant_target_zero_scores:
  assumes "consistent r"
      and "\<forall>f \<in> set (feature_names r). (case ta f of None \<Rightarrow> 50 | Some v \<Rightarrow> v) = c"
  shows "normalize_target (target_vector (feature_names r) ta)
           = Inr (replicate (length (feature_names r)) 0) \<and>
         match_scores r ta = Inr (replicate (length (data r)) 0) \<and>
         recommend_by_attributes r ta n position
           = Inr (py_head n (map (\<lambda>p. (p, 0))
               (filter (\<lambda>p. \<not> (truthy position \<and> Position_Category p \<noteq> position)) (data r)))) \<and>
         (0 \<le> n \<longrightarrow> recommend_by_attributes r ta n position
           = Inr (take (nat n) (map (\<lambda>p. (p, 0))
               (filter (\<lambda>p. \<not> (truthy position \<and> Position_Category p \<noteq> position)) (data r)))))"
proof -
  let ?k = "length (feature_names r)"
  let ?P = "\<lambda>p. \<not> (truthy position \<and> Position_Category p \<noteq> position)"
  have k: "0 < ?k" using consistent_names_nonempty[OF assms(1)] by simp
  have "map (\<lambda>f. case ta f of None \<Rightarrow> 50 | Some v \<Rightarrow> v) (feature_names r)
      = map (\<lambda>f. c) (feature_names r)"
    using assms(2) by (intro map_cong) auto
  then have tv: "target_vector (feature_names r) ta = replicate ?k c"
    by (simp add: target_vector_map map_replicate_const)
  have nt: "normalize_target (target_vector (feature_names r) ta) = Inr (replicate ?k 0)"
    unfolding tv using k by (rule normalize_target_constant)
  have rows: "length (normalized_features r) = length (data r)"
    using assms(1) by (simp add: consistent_def)
  have "match_scores r ta
     = Inr (map (\<lambda>row. dot (l2_normalize (replicate ?k 0)) (l2_normalize row))
              (normalized_features r))"
    using match_scores_consistent[OF assms(1) nt] by simp
  also have "map (\<lambda>row. dot (l2_normalize (replicate ?k 0)) (l2_normalize row))
              (normalized_features r) = replicate (length (data r)) 0"
    by (simp add: l2_normalize_zeros dot_zeros map_replicate_const rows)
  finally have ms: "match_scores r ta = Inr (replicate (length (data r)) 0)" .
  let ?sel = "map (\<lambda>i. (i, 0::real)) (filter (\<lambda>i. ?P (data r ! i)) [0..<length (data r)])"
  have sorted: "sort_by_score ?sel = ?sel"
    unfolding sort_by_score_def by (rule sort_key_constant[where c = 0]) auto
  have ranked: "attribute_ranked r ta n position = Inr (py_head n ?sel)"
    by (simp only: attribute_ranked_def ms bind_res_def sum.case collect_attribute_zero sorted)
  have "map (\<lambda>(idx, score). (data r ! idx, score)) ?sel
      = map (\<lambda>p. (p, 0)) (map (\<lambda>i. data r ! i) (filter (\<lambda>i. ?P (data r ! i)) [0..<length (data r)]))"
    by simp
  also have "\<dots> = map (\<lambda>p. (p, 0)) (filter ?P (data r))"
    by (rule arg_cong[where f = "map (\<lambda>p. (p, 0))"])
       (rule nth_filter_indices[where xs = "data r" and P = ?P])
  finally have rows_eq: "map (\<lambda>(idx, score). (data r ! idx, score)) ?sel
      = map (\<lambda>p. (p, 0)) (filter ?P (data r))" .
  have res: "recommend_by_attributes r ta n position
      = Inr (py_head n (map (\<lambda>p. (p, 0)) (filter ?P (data r))))"
  proof -
    have "recommend_by_attributes r ta n position
        = Inr (map (\<lambda>(idx, score). (data r ! idx, score)) (py_head n ?sel))"
      by (simp only: recommend_by_attributes_def ranked bind_res_def sum.case)
    also have "map (\<lambda>(idx, score). (data r ! idx, score)) (py_head n ?sel)
        = py_head n (map (\<lambda>(idx, score). (data r ! idx, score)) ?sel)"
      by (rule py_head_map[symmetric])
    also have "\<dots> = py_head n (map (\<lambda>p. (p, 0)) (filter ?P (data r)))"
      by (simp only: rows_eq)
    finally show ?thesis .
  qed
  have "0 \<le> n \<longrightarrow> recommend_by_attributes r ta n position
      = Inr (take (nat n) (map (\<lambda>p. (p, 0)) (filter ?P (data r))))"
    using res by (simp add: py_head_def)
  with nt ms res show ?thesis by blast
qed

theorem constant_target_zero_scores_witness:
  "consistent example_recommender \<and>
   list_all (\<lambda>f. (case Map.empty f of None \<Rightarrow> 50 | Some v \<Rightarrow> v) = (50::real))
     (feature_names example_recommender) \<and>
   match_scores example_recommender Map.empty = Inr [0, 0, 0] \<and>
   recommend_by_attributes example_recommender Map.empty 2 None
     = Inr [(player_A, 0), (player_B, 0)]"
proof -
  have h: "\<forall>f \<in> set (feature_names example_recommender).
      (case Map.empty f of None \<Rightarrow> 50 | Some v \<Rightarrow> v) = (50::real)"
    by simp
  have d: "data example_recommender = [player_A, player_B, player_C]"
    by (simp add: example_recommender_def example_data_def)
  from constant_target_zero_scores[OF example_consistent h, of 2 None]
  have "match_scores example_recommender Map.empty = Inr [0, 0, 0]"
    and "recommend_by_attributes example_recommender Map.empty 2 None
     = Inr [(player_A, 0), (player_B, 0)]"
    by (simp_all add: d py_head_def)
  with example_consistent h show ?thesis by (simp add: list_all_iff)
qed

subsection \<open>Search\<close>

lemma py_in_empty: "py_in [] s = True"
  by (cases s) simp_all

lemma select_rows_map: "select_rows (map Q df) df = filter Q df"
  by (induction df) (simp_all add: select_rows_def)

lemma where_contains_literal:
  assumes "literal_pattern pat"
  shows "where_contains pat cs col df
     = Inr (filter (\<lambda>p. if cs then py_in pat (col p) else ci_contains pat (col p)) df)"
proof -
  have "str_contains pat cs (map col df)
     = Inr (map (\<lambda>p. if cs then py_in pat (col p) else ci_contains pat (col p)) df)"
    using str_contains_literal[OF assms, of cs "map col df"] by (simp add: o_def)
  then show ?thesis
    by (simp only: where_contains_def bind_res_def sum.case select_rows_map)
qed

lemma when_given_ci:
  assumes "opt_literal arg"
  shows "when_given arg (\<lambda>v. where_contains v False col df) df
     = Inr (filter (\<lambda>p. opt_contains arg (col p)) df)"
proof (cases arg)
  case None
  then show ?thesis by (simp add: when_given_def opt_contains_def)
next
  case (Some v)
  show ?thesis
  proof (cases "v = []")
    case True
    then show ?thesis
      using Some by (simp add: when_given_def opt_contains_def ci_contains_def py_lower_def py_in_empty)
  next
    case False
    have "literal_pattern v" using assms Some by (simp add: opt_literal_def)
    then show ?thesis
      using Some False by (simp add: when_given_def opt_contains_def where_contains_literal)
  qed
qed

lemma when_given_query:
  assumes "opt_literal query"
  shows "when_given query (\<lambda>q. where_contains (py_lower q) True (\<lambda>p. py_lower (Name p)) df) df
     = Inr (filter (\<lambda>p. opt_contains query (Name p)) df)"
proof (cases query)
  case None
  then show ?thesis by (simp add: when_given_def opt_contains_def)
next
  case (Some q)
  show ?thesis
  proof (cases "q = []")
    case True
    then show ?thesis
      using Some by (simp add: when_given_def opt_contains_def ci_contains_def py_lower_def py_in_empty)
  next
    case False
    have "literal_pattern (py_lower q)"
      using assms Some by (simp add: opt_literal_def literal_pattern_lower)
    then show ?thesis
      using Some False
      by (simp add: when_given_def opt_contains_def where_contains_literal ci_contains_def)
  qed
qed

lemma search_players_literal:
  assumes "opt_literal query" "opt_literal position" "opt_literal nation"
          "opt_literal league" "opt_literal team"
  shows "search_players sort_values r query position min_overall max_overall nation league team
           limit
     = Inr (py_head limit (sort_values
         (filter (search_match query position min_overall max_overall nation league team) (data r))))"
proof -
  have conj: "filter (\<lambda>p. opt_contains team (Team p))
         (filter (\<lambda>p. opt_contains league (League p))
           (filter (\<lambda>p. opt_contains nation (Nation p))
             (filter (\<lambda>p. case max_overall of None \<Rightarrow> True | Some m \<Rightarrow> OVR p \<le> m)
               (filter (\<lambda>p. case min_overall of None \<Rightarrow> True | Some m \<Rightarrow> m \<le> OVR p)
                 (filter (\<lambda>p. opt_contains position (Position p))
                   (filter (\<lambda>p. opt_contains query (Name p)) (data r)))))))
      = filter (search_match query position min_overall max_overall nation league team) (data r)"
    by (simp add: search_match_def conj_commute conj_left_commute cong: filter_cong)
  have mn: "\<And>df. (case min_overall of None \<Rightarrow> df | Some m \<Rightarrow> filter (\<lambda>p. m \<le> OVR p) df)
      = filter (\<lambda>p. case min_overall of None \<Rightarrow> True | Some m \<Rightarrow> m \<le> OVR p) df"
    by (cases min_overall) simp_all
  have mx: "\<And>df. (case max_overall of None \<Rightarrow> df | Some m \<Rightarrow> filter (\<lambda>p. OVR p \<le> m) df)
      = filter (\<lambda>p. case max_overall of None \<Rightarrow> True | Some m \<Rightarrow> OVR p \<le> m) df"
    by (cases max_overall) simp_all
  show ?thesis
    unfolding search_players_def Let_def
    by (simp only: when_given_query[OF assms(1)] when_given_ci[OF assms(2)]
        when_given_ci[OF assms(3)] when_given_ci[OF assms(4)] when_given_ci[OF assms(5)]
        bind_res_def sum.case mn mx conj)
qed

text \<open>
  A stable sort on the negated rating is a descending sort, and every descending sort
  leaves a list alone whose ratings already descend and are pairwise different.
\<close>

lemma descending_sort_stable: "descending_sort (sort_key (\<lambda>p :: player. - OVR p))"
proof -
  have "sorted_wrt (\<lambda>a b. OVR b \<le> OVR a) (sort_key (\<lambda>p. - OVR p) df)"
    for df :: "player list"
  proof -
    have "sorted (map (\<lambda>p. - OVR p) (sort_key (\<lambda>p. - OVR p) df))"
      by (rule sorted_sort_key)
    then show ?thesis by (simp add: sorted_map)
  qed
  then show ?thesis by (simp add: descending_sort_def)
qed

lemma descending_sort_fixed:
  assumes "descending_sort sort_values"
      and "inj_on OVR (set xs)"
      and "sorted_wrt (\<lambda>a b. OVR b \<le> OVR a) xs"
  shows "sort_values xs = xs"
proof -
  let ?f = "\<lambda>p. - OVR p"
  have inj: "inj_on ?f (set xs)"
    using assms(2) by (auto simp: inj_on_def)
  have m: "mset xs = mset (sort_values xs)"
    using assms(1) by (simp add: descending_sort_def)
  have "sorted_wrt (\<lambda>a b. OVR b \<le> OVR a) (sort_values xs)"
    using assms(1) by (simp add: descending_sort_def)
  then have s1: "sorted (map ?f (sort_values xs))" by (simp add: sorted_map)
  have s2: "sorted (map ?f xs)" using assms(3) by (simp add: sorted_map)
  have "sort_key ?f xs = sort_values xs"
    using m inj s1 by (rule sort_key_inj_key_eq)
  moreover have "sort_key ?f xs = xs"
    using refl inj s2 by (rule sort_key_inj_key_eq)
  ultimately show ?thesis by simp
qed

text \<open>
  On the example dataset a minimum rating of 85 yields A and B in this order, whatever
  the sorting routine does with ties.
\<close>

lemma search_players_example:
  assumes "descending_sort sort_values"
  shows "search_players sort_values example_recommender None None (Some 85) None None None None 50
     = Inr [player_A, player_B]"
proof -
  have n: "opt_literal None" by (simp add: opt_literal_def)
  have hits: "filter (search_match None None (Some 85) None None None None)
       (data example_recommender) = [player_A, player_B]"
    by code_simp
  have "inj_on OVR (set [player_A, player_B])"
    by (simp add: player_A_def player_B_def)
  moreover have "sorted_wrt (\<lambda>a b. OVR b \<le> OVR a) [player_A, player_B]"
    by (simp add: player_A_def player_B_def)
  ultimately have "sort_values [player_A, player_B] = [player_A, player_B]"
    using assms descending_sort_fixed by blast
  then show ?thesis
    by (simp add: search_players_literal[OF n n n n n] hits py_head_def)
qed

text \<open>
  A query that is a valid regular expression is matched as one: \<open>.\<close> selects all three
  rows of the example, none of whose names contains a dot.
\<close>

lemma search_players_dot_query:
  assumes "descending_sort sort_values"
  shows "search_players sort_values example_recommender (Some ''.'') None None None None None None 50
     = Inr [player_A, player_B, player_C]"
proof -
  have "inj_on OVR (set [player_A, player_B, player_C])"
    by (simp add: player_A_def player_B_def player_C_def)
  moreover have "sorted_wrt (\<lambda>a b. OVR b \<le> OVR a) [player_A, player_B, player_C]"
    by (simp add: player_A_def player_B_def player_C_def)
  ultimately have fixed: "sort_values [player_A, player_B, player_C]
      = [player_A, player_B, player_C]"
    using assms descending_sort_fixed by blast
  have "where_contains (py_lower ''.'') True (\<lambda>p. py_lower (Name p)) (data example_recommender)
      = Inr [player_A, player_B, player_C]"
    by code_simp
  then show ?thesis
    by (simp add: search_players_def when_given_def bind_res_def fixed py_head_def)
qed

text \<open>
  C5. The string filters of \<open>search_players\<close> are passed to \<open>str.contains\<close> as regular
  expressions, not as substrings: with the query \<open>*\<close>, which no name of the example
  contains, the search raises instead of returning the (empty) list of rows that pass the
  substring filter; this for every sorting routine. For filter strings without special
  characters the filters are the conjunction of substring and range tests
  (\<open>search_players_literal\<close>).
\<close>

theorem search_players_regex_pattern:
  "search_players sort_values example_recommender (Some ''*'') None None None None None None 50
     = Inl ReError \<and>
   \<not> ci_contains ''*'' (Name player_A) \<and> \<not> ci_contains ''*'' (Name player_B) \<and>
   \<not> ci_contains ''*'' (Name player_C)"
proof -
  have "where_contains (py_lower ''*'') True (\<lambda>p. py_lower (Name p)) (data example_recommender)
      = Inl ReError"
    by code_simp
  then have "search_players sort_values example_recommender (Some ''*'') None None None None None
      None 50 = Inl ReError"
    by (simp add: search_players_def when_given_def bind_res_def)
  moreover have "\<not> ci_contains ''*'' (Name player_A) \<and> \<not> ci_contains ''*'' (Name player_B) \<and>
      \<not> ci_contains ''*'' (Name player_C)"
    by code_simp
  ultimately show ?thesis by simp
qed

subsection \<open>Queries against the store\<close>

lemma preserved_append: "preserved h (h @ ext)"
  by (simp add: preserved_def)

lemma preserved_deref:
  assumes "preserved h h'" and "deref h a = Some ob"
  shows "deref h' a = Some ob"
proof -
  have h': "h' = h @ drop (length h) h'"
    using assms(1) append_take_drop_id[of "length h" h'] by (simp add: preserved_def)
  have a: "a < length h" and ob: "h ! a = ob"
    using assms(2) by (auto simp: deref_def split: if_splits)
  have "a < length h'" using a h' by (metis length_append trans_less_add1)
  moreover have "h' ! a = ob" using a ob h' by (metis nth_append)
  ultimately show ?thesis by (simp add: deref_def)
qed

lemma preserved_load:
  assumes "preserved h h'" and "load_recommender h self = Some r"
  shows "load_recommender h' self = Some r"
proof -
  from assms(2) obtain d nf fn sm dd nn ff ss where
    s: "deref h self = Some (RecommenderObj d nf fn sm)"
    and f: "deref h d = Some (Frame dd)" "deref h nf = Some (Array nn)"
       "deref h fn = Some (NameList ff)" "deref h sm = Some (Array ss)"
    and r: "r = \<lparr>data = dd, normalized_features = nn, feature_names = ff,
       similarity_matrix = ss\<rparr>"
    by (auto simp: load_recommender_def split: option.splits obj.splits)
  show ?thesis
    using preserved_deref[OF assms(1) s] f[THEN preserved_deref[OF assms(1)]] r
    by (simp add: load_recommender_def)
qed

lemma setitem_new:
  "dict_setitem (length h) key v (h @ [Dict p kv]) = h @ [Dict p (kv @ [(key, v)])]"
  by (simp add: dict_setitem_def deref_def)

lemma upt_cons_shift: "a # [Suc a..<Suc a + n] = [a..<a + Suc n]"
proof -
  have "a < a + Suc n" by simp
  then have "[a..<a + Suc n] = a # [Suc a..<a + Suc n]" by (rule upt_conv_Cons)
  then show ?thesis by (simp del: upt_Suc)
qed

lemma scored_dicts_result:
  "scored_dicts df key ranked h
     = ([length h..<length h + length ranked],
        h @ map (\<lambda>(idx, score). Dict (df ! idx) [(key, score)]) ranked)"
proof (induction ranked arbitrary: h)
  case Nil
  then show ?case by simp
next
  case (Cons c ranked)
  obtain idx score where c: "c = (idx, score)" by (cases c)
  let ?h2 = "h @ [Dict (df ! idx) [(key, score)]]"
  have "scored_dicts df key (c # ranked) h
      = (let (refs, h3) = scored_dicts df key ranked ?h2 in (length h # refs, h3))"
    using setitem_new[of h key score "df ! idx" "[]"] by (simp add: c alloc_def)
  also have "\<dots> = (length h # [length ?h2..<length ?h2 + length ranked],
      ?h2 @ map (\<lambda>(idx, score). Dict (df ! idx) [(key, score)]) ranked)"
    by (simp only: Cons.IH Let_def prod.case)
  also have "length h # [length ?h2..<length ?h2 + length ranked]
      = [length h..<length h + length (c # ranked)]"
    using upt_cons_shift[of "length h"] by (simp del: upt_Suc)
  finally show ?case by (simp add: c)
qed

lemma record_dicts_result:
  "record_dicts rows h
     = ([length h..<length h + length rows], h @ map (\<lambda>p. Dict p []) rows)"
proof (induction rows arbitrary: h)
  case Nil
  then show ?case by simp
next
  case (Cons p rows)
  let ?h1 = "h @ [Dict p []]"
  have "record_dicts (p # rows) h
      = (let (refs, h2) = record_dicts rows ?h1 in (length h # refs, h2))"
    by (simp add: alloc_def)
  also have "\<dots> = (length h # [length ?h1..<length ?h1 + length rows],
      ?h1 @ map (\<lambda>p. Dict p []) rows)"
    by (simp only: Cons.IH Let_def prod.case)
  also have "length h # [length ?h1..<length ?h1 + length rows]
      = [length h..<length h + length (p # rows)]"
    using upt_cons_shift[of "length h"] by (simp del: upt_Suc)
  finally show ?case by simp
qed

lemma recommend_similar_obj_preserved:
  "preserved h (snd (recommend_similar_obj self player_name n sp mad h))"
  by (auto simp: recommend_similar_obj_def scored_dicts_result preserved_def
      split: option.splits sum.splits)

lemma recommend_by_attributes_obj_preserved:
  "preserved h (snd (recommend_by_attributes_obj self ta n position h))"
  by (auto simp: recommend_by_attributes_obj_def scored_dicts_result preserved_def
      split: option.splits sum.splits)

lemma search_players_obj_preserved:
  "preserved h
     (snd (search_players_obj sort_values self query position mn mx nation league team limit h))"
  by (auto simp: search_players_obj_def record_dicts_result alloc_def preserved_def
      split: option.splits sum.splits)

lemma get_top_players_obj_preserved:
  "preserved h (snd (get_top_players_obj sort_values self n position h))"
  by (auto simp: get_top_players_obj_def record_dicts_result alloc_def preserved_def
      split: option.splits sum.splits)

lemma get_player_details_obj_preserved:
  "preserved h (snd (get_player_details_obj self player_name h))"
  by (auto simp: get_player_details_obj_def alloc_def preserved_def
      split: option.splits sum.splits)

text \<open>
  What a query returns and allocates, in terms of the method on values: the references of
  the new dictionaries, which are appended to the store.
\<close>

lemma recommend_similar_obj_result:
  assumes "load_recommender h self = Some r"
  shows "recommend_similar_obj self player_name n sp mad h =
     (case recommend_similar r player_name n sp mad of
        Inl e \<Rightarrow> (Inl e, h)
      | Inr recs \<Rightarrow> (Inr [length h..<length h + length recs],
          h @ map (\<lambda>(p, s). Dict p [(''similarity_score'', s)]) recs))"
  using assms
  by (simp add: recommend_similar_obj_def recommend_similar_def bind_res_def scored_dicts_result
      case_prod_beta o_def split: sum.splits)

lemma recommend_by_attributes_obj_result:
  assumes "load_recommender h self = Some r"
  shows "recommend_by_attributes_obj self ta n position h =
     (case recommend_by_attributes r ta n position of
        Inl e \<Rightarrow> (Inl e, h)
      | Inr recs \<Rightarrow> (Inr [length h..<length h + length recs],
          h @ map (\<lambda>(p, s). Dict p [(''match_score'', s)]) recs))"
  using assms
  by (simp add: recommend_by_attributes_obj_def recommend_by_attributes_def bind_res_def
      scored_dicts_result case_prod_beta o_def split: sum.splits)

lemma search_players_obj_result:
  assumes "load_recommender h self = Some r"
  shows "search_players_obj sort_values self query position mn mx nation league team limit h =
     (case search_players sort_values r query position mn mx nation league team limit of
        Inl e \<Rightarrow> (Inl e, h @ [Frame (data r)])
      | Inr rows \<Rightarrow> (Inr [Suc (length h)..<Suc (length h) + length rows],
          h @ Frame (data r) # map (\<lambda>p. Dict p []) rows))"
  using assms
  by (simp add: search_players_obj_def alloc_def record_dicts_result split: sum.splits)

lemma get_top_players_obj_result:
  assumes "load_recommender h self = Some r"
  shows "get_top_players_obj sort_values self n position h =
     (case get_top_players sort_values r n position of
        Inl e \<Rightarrow> (Inl e, h @ [Frame (data r)])
      | Inr rows \<Rightarrow> (Inr [Suc (length h)..<Suc (length h) + length rows],
          h @ Frame (data r) # map (\<lambda>p. Dict p []) rows))"
  using assms
  by (simp add: get_top_players_obj_def alloc_def record_dicts_result split: sum.splits)

lemma get_player_details_obj_result:
  assumes "load_recommender h self = Some r"
  shows "get_player_details_obj self player_name h =
     (case get_player_details r player_name of
        Inl e \<Rightarrow> (Inl e, h)
      | Inr None \<Rightarrow> (Inr None, h)
      | Inr (Some p) \<Rightarrow> (Inr (Some (length h)), h @ [Dict p []]))"
  using assms
  by (simp add: get_player_details_obj_def alloc_def split: sum.splits option.splits)

lemma example_load: "load_recommender example_store 4 = Some example_recommender"
  by (simp add: load_recommender_def deref_def example_store_def example_recommender_def)

text \<open>
  C9. Each of the five queries, run on a store in which \<open>self\<close> is a recommender with
  state \<open>r\<close>, leaves every object that existed before it unchanged at its reference, and
  the state of the recommender read from the resulting store is again \<open>r\<close>: dataset,
  normalised feature matrix, feature names and similarity matrix.
\<close>

theorem queries_preserve_state:
  assumes "load_recommender h self = Some r"
  shows "preserved h (snd (recommend_similar_obj self player_name n same_position max_age_diff h)) \<and>
         load_recommender
           (snd (recommend_similar_obj self player_name n same_position max_age_diff h)) self
           = Some r \<and>
         preserved h (snd (recommend_by_attributes_obj self target_attributes n position h)) \<and>
         load_recommender
           (snd (recommend_by_attributes_obj self target_attributes n position h)) self = Some r \<and>
         preserved h (snd (search_players_obj sort_values self query position min_overall
            max_overall nation league team limit h)) \<and>
         load_recommender
           (snd (search_players_obj sort_values self query position min_overall max_overall
            nation league team limit h)) self = Some r \<and>
         preserved h (snd (get_top_players_obj sort_values self n position h)) \<and>
         load_recommender (snd (get_top_players_obj sort_values self n position h)) self
           = Some r \<and>
         preserved h (snd (get_player_details_obj self player_name h)) \<and>
         load_recommender (snd (get_player_details_obj self player_name h)) self = Some r"
proof -
  note keep = preserved_load[OF _ assms]
  show ?thesis
    by (intro conjI keep recommend_similar_obj_preserved recommend_by_attributes_obj_preserved
        search_players_obj_preserved get_top_players_obj_preserved
        get_player_details_obj_preserved)
qed

theorem queries_preserve_state_witness:
  "load_recommender example_store 4 = Some example_recommender \<and>
   recommend_similar_obj 4 ''A'' 2 True None example_store
     = (Inr [5], example_store @ [Dict player_B [(''similarity_score'', 3 / 5)]]) \<and>
   load_recommender (example_store @ [Dict player_B [(''similarity_score'', 3 / 5)]]) 4
     = Some example_recommender"
proof -
  have rs: "recommend_similar example_recommender ''A'' 2 True None = Inr [(player_B, 3 / 5)]"
    by code_simp
  have len: "length example_store = 5" by (simp add: example_store_def)
  have run: "recommend_similar_obj 4 ''A'' 2 True None example_store
     = (Inr [5], example_store @ [Dict player_B [(''similarity_score'', 3 / 5)]])"
    by (simp add: recommend_similar_obj_result[OF example_load] rs len)
  from queries_preserve_state[OF example_load, of "''A''" 2 True None]
  have "load_recommender (snd (recommend_similar_obj 4 ''A'' 2 True None example_store)) 4
     = Some example_recommender"
    by blast
  then have "load_recommender (example_store @ [Dict player_B [(''similarity_score'', 3 / 5)]]) 4
     = Some example_recommender"
    by (simp add: run)
  with example_load run show ?thesis by blast
qed

end
